theory Spec2Isabelle
  imports Main
begin

section \<open>Values of the program\<close>

text \<open>
  The values that flow through \<^verbatim>\<open>js/app.js\<close> are the results of \<^verbatim>\<open>JSON.parse\<close>:
  null, booleans, numbers, strings, arrays and plain objects. An object is the list of
  its own properties in the order of the text they were read from, with distinct keys
  (JavaScript lists integer-like keys first; that reordering is not modelled, and
  nothing below depends on the order of keys). A character stands for one code unit of
  a JavaScript string, of those below 256. Numbers are the integers that a double holds
  exactly and prints in full (the numeric fields of the GitHub repository resource are
  identifiers and counts); other doubles are outside this development.
\<close>

datatype json =
    JNull
  | JBool bool
  | JNum int
  | JStr string
  | JArr "json list"
  | JObj "(string \<times> json) list"

text \<open>The exceptions the code can meet: the two built-in ones, and whatever a callback throws.\<close>

datatype js_error = SyntaxError | TypeError | Thrown string

text \<open>JavaScript's \<^verbatim>\<open>ToBoolean\<close>: the falsy values are null, false, 0 and the empty string
  (and \<^verbatim>\<open>undefined\<close>, which is \<open>None\<close> where a property is read).\<close>

fun truthy :: "json \<Rightarrow> bool" where
  "truthy JNull = False"
| "truthy (JBool b) = b"
| "truthy (JNum n) = (n \<noteq> 0)"
| "truthy (JStr s) = (s \<noteq> [])"
| "truthy (JArr xs) = True"
| "truthy (JObj kvs) = True"

fun truthy_opt :: "json option \<Rightarrow> bool" where
  "truthy_opt None = False"
| "truthy_opt (Some v) = truthy v"

text \<open>
  Reading one of the properties \<^verbatim>\<open>has_pages\<close>, \<^verbatim>\<open>name\<close>, \<^verbatim>\<open>updated_at\<close> of a value
  other than null: an object gives its own property or \<^verbatim>\<open>undefined\<close>; arrays and primitives
  have no property of these names, so they give \<^verbatim>\<open>undefined\<close>. (Reading a property of null
  throws; the callers below treat null before calling \<open>get_prop\<close>.)
\<close>

fun get_prop :: "json \<Rightarrow> string \<Rightarrow> json option" where
  "get_prop (JObj kvs) k = map_of kvs k"
| "get_prop v k = None"

section \<open>The data source: filter and sort\<close>

text \<open>\<^verbatim>\<open>GitHubAPI.baseUrl\<close> and \<^verbatim>\<open>GitHubAPI.exclude\<close>.\<close>

definition baseUrl :: string where
  "baseUrl = ''https://api.github.com''"

definition exclude :: "string list" where
  "exclude = [''liamnewmarch.github.io'', ''janineandliam.co.uk'']"

text \<open>\<^verbatim>\<open>GitHubAPI.exclude.includes(v)\<close>: only a string can be equal to a member of the list.\<close>

fun exclude_includes :: "json option \<Rightarrow> bool" where
  "exclude_includes (Some (JStr s)) = (s \<in> set exclude)"
| "exclude_includes v = False"

text \<open>The callback given to \<^verbatim>\<open>filter\<close>:
  \<^verbatim>\<open>repo.has_pages && !GitHubAPI.exclude.includes(repo.name)\<close>.
  On a null element the property read throws a TypeError.\<close>

fun keep_repo :: "json \<Rightarrow> js_error + bool" where
  "keep_repo JNull = Inl TypeError"
| "keep_repo repo =
     Inr (truthy_opt (get_prop repo ''has_pages'') \<and> \<not> exclude_includes (get_prop repo ''name''))"

text \<open>\<^verbatim>\<open>Array.prototype.filter\<close> with a callback that may throw: elements are visited from
  the left and the first exception ends the call.\<close>

fun filter_js :: "('a \<Rightarrow> js_error + bool) \<Rightarrow> 'a list \<Rightarrow> js_error + 'a list" where
  "filter_js p [] = Inr []"
| "filter_js p (x # xs) =
     (case p x of
        Inl e \<Rightarrow> Inl e
      | Inr b \<Rightarrow> (case filter_js p xs of
                   Inl e \<Rightarrow> Inl e
                 | Inr ys \<Rightarrow> Inr (if b then x # ys else ys)))"

text \<open>
  The time value of \<^verbatim>\<open>new Date(v)\<close>, \<open>None\<close> for an invalid date (NaN). How a string is
  parsed is the host's \<^verbatim>\<open>Date.parse\<close>, a parameter here. \<^verbatim>\<open>undefined\<close> gives an invalid
  date, null and booleans are converted to numbers, a number is a time value when it is
  within the range of dates.
\<close>

fun string_of_nat :: "nat \<Rightarrow> string" where
  "string_of_nat n =
     (if n < 10 then [char_of (48 + n)]
      else string_of_nat (n div 10) @ [char_of (48 + n mod 10)])"

declare string_of_nat.simps [simp del]

definition string_of_int :: "int \<Rightarrow> string" where
  "string_of_int i = (if i < 0 then CHR ''-'' # string_of_nat (nat (- i)) else string_of_nat (nat i))"

fun join :: "string \<Rightarrow> string list \<Rightarrow> string" where
  "join sep [] = []"
| "join sep [s] = s"
| "join sep (s # t # ss) = s @ sep @ join sep (t # ss)"

text \<open>The string an array or an object is converted to when a date is made from it: an
  array is its elements joined by commas, null elements giving the empty string; a plain
  object is \<^verbatim>\<open>[object Object]\<close>. The digits of a number are written in full, as the host
  does below 2 to the power 53.\<close>

fun to_string :: "json \<Rightarrow> string" where
  "to_string JNull = ''null''"
| "to_string (JBool b) = (if b then ''true'' else ''false'')"
| "to_string (JNum n) = string_of_int n"
| "to_string (JStr s) = s"
| "to_string (JArr xs) =
     join '','' (map (\<lambda>x. if x = JNull then [] else to_string x) xs)"
| "to_string (JObj kvs) = ''[object Object]''"

fun date_value :: "(string \<Rightarrow> int option) \<Rightarrow> json option \<Rightarrow> int option" where
  "date_value dp None = None"
| "date_value dp (Some JNull) = Some 0"
| "date_value dp (Some (JBool b)) = Some (if b then 1 else 0)"
| "date_value dp (Some (JNum n)) =
     (if - 8640000000000000 \<le> n \<and> n \<le> 8640000000000000 then Some n else None)"
| "date_value dp (Some (JStr s)) = dp s"
| "date_value dp (Some v) = dp (to_string v)"

text \<open>\<^verbatim>\<open>x > y\<close> on two dates compares their time values; with NaN it is false.\<close>

fun date_gt :: "int option \<Rightarrow> int option \<Rightarrow> bool" where
  "date_gt (Some a) (Some b) = (a > b)"
| "date_gt a b = False"

text \<open>The comparator given to \<^verbatim>\<open>sort\<close>:
  \<^verbatim>\<open>new Date(a.updated_at) > new Date(b.updated_at) ? -1 : 1\<close>.\<close>

definition updated_at :: "(string \<Rightarrow> int option) \<Rightarrow> json \<Rightarrow> int option" where
  "updated_at dp repo = date_value dp (get_prop repo ''updated_at'')"

definition by_updated_at :: "(string \<Rightarrow> int option) \<Rightarrow> json \<Rightarrow> json \<Rightarrow> int" where
  "by_updated_at dp a b = (if date_gt (updated_at dp a) (updated_at dp b) then - 1 else 1)"

text \<open>
  \<^verbatim>\<open>Array.prototype.sort\<close> is the host's. It is modelled as the stable insertion sort that
  reads the comparator only through the sign of its result: each element in turn goes
  in front of the first element of the sorted prefix that it must precede.
\<close>

fun insert_by :: "('a \<Rightarrow> 'a \<Rightarrow> int) \<Rightarrow> 'a \<Rightarrow> 'a list \<Rightarrow> 'a list" where
  "insert_by c x [] = [x]"
| "insert_by c x (y # ys) = (if c x y < 0 then x # y # ys else y # insert_by c x ys)"

definition sort_js :: "('a \<Rightarrow> 'a \<Rightarrow> int) \<Rightarrow> 'a list \<Rightarrow> 'a list" where
  "sort_js c xs = foldl (\<lambda>acc x. insert_by c x acc) [] xs"

text \<open>\<^verbatim>\<open>GitHubAPI.prototype.filterWithPages\<close>. A value without a \<^verbatim>\<open>filter\<close> method (anything
  but an array) makes the call throw a TypeError.\<close>

fun filterWithPages :: "(string \<Rightarrow> int option) \<Rightarrow> json \<Rightarrow> js_error + json list" where
  "filterWithPages dp (JArr repos) =
     (case filter_js keep_repo repos of
        Inl e \<Rightarrow> Inl e
      | Inr kept \<Rightarrow> Inr (sort_js (by_updated_at dp) kept))"
| "filterWithPages dp v = Inl TypeError"

section \<open>JSON text\<close>

text \<open>
  \<^verbatim>\<open>JSON.stringify\<close> and \<^verbatim>\<open>JSON.parse\<close> are the host's; they are modelled here on the
  values above. A string is written between double quotes; the quote, the backslash and
  the control characters are escaped.
\<close>

definition hex_digit :: "nat \<Rightarrow> char" where
  "hex_digit d = (if d < 10 then char_of (48 + d) else char_of (87 + d))"

definition escape_char :: "char \<Rightarrow> string" where
  "escape_char c =
     (if c = CHR 0x22 then [CHR 0x5C, CHR 0x22]
      else if c = CHR 0x5C then [CHR 0x5C, CHR 0x5C]
      else if c = CHR 0x08 then [CHR 0x5C, CHR ''b'']
      else if c = CHR 0x0C then [CHR 0x5C, CHR ''f'']
      else if c = CHR 0x0A then [CHR 0x5C, CHR ''n'']
      else if c = CHR 0x0D then [CHR 0x5C, CHR ''r'']
      else if c = CHR 0x09 then [CHR 0x5C, CHR ''t'']
      else if (of_char c :: nat) < 32 then
        [CHR 0x5C, CHR ''u'', CHR ''0'', CHR ''0'',
         hex_digit ((of_char c :: nat) div 16), hex_digit ((of_char c :: nat) mod 16)]
      else [c])"

definition quote :: "string \<Rightarrow> string" where
  "quote s = CHR 0x22 # concat (map escape_char s) @ [CHR 0x22]"

fun stringify :: "json \<Rightarrow> string" where
  "stringify JNull = ''null''"
| "stringify (JBool b) = (if b then ''true'' else ''false'')"
| "stringify (JNum n) = string_of_int n"
| "stringify (JStr s) = quote s"
| "stringify (JArr xs) = ''['' @ join '','' (map stringify xs) @ '']''"
| "stringify (JObj kvs) =
     ''{'' @ join '','' (map (\<lambda>(k, v). quote k @ '':'' @ stringify v) kvs) @ ''}''"

text \<open>The parser. JSON's white space is the space, the tab, the line feed and the
  carriage return.\<close>

definition is_ws :: "char \<Rightarrow> bool" where
  "is_ws c = (c = CHR 0x20 \<or> c = CHR 0x09 \<or> c = CHR 0x0A \<or> c = CHR 0x0D)"

definition skip_ws :: "string \<Rightarrow> string" where
  "skip_ws s = dropWhile is_ws s"

definition is_digit :: "char \<Rightarrow> bool" where
  "is_digit c = (48 \<le> (of_char c :: nat) \<and> (of_char c :: nat) \<le> 57)"

definition digit_val :: "char \<Rightarrow> nat" where
  "digit_val c = of_char c - 48"

definition hex_val :: "char \<Rightarrow> nat option" where
  "hex_val c =
     (let n = (of_char c :: nat)
      in if 48 \<le> n \<and> n \<le> 57 then Some (n - 48)
         else if 97 \<le> n \<and> n \<le> 102 then Some (n - 87)
         else if 65 \<le> n \<and> n \<le> 70 then Some (n - 55)
         else None)"

text \<open>The character an escape \<^verbatim>\<open>\uXXXX\<close> stands for. A code unit above 255 is not a
  character of this development: a text with such an escape has no value here.\<close>

definition unicode_escape :: "char \<Rightarrow> char \<Rightarrow> char \<Rightarrow> char \<Rightarrow> char option" where
  "unicode_escape a b c d =
     (case (hex_val a, hex_val b, hex_val c, hex_val d) of
        (Some x, Some y, Some z, Some w) \<Rightarrow>
          (let n = ((x * 16 + y) * 16 + z) * 16 + w
           in if n < 256 then Some (char_of n) else None)
      | _ \<Rightarrow> None)"

definition simple_escape :: "char \<Rightarrow> char option" where
  "simple_escape e =
     (if e = CHR 0x22 then Some (CHR 0x22)
      else if e = CHR 0x5C then Some (CHR 0x5C)
      else if e = CHR ''/'' then Some (CHR ''/'')
      else if e = CHR ''b'' then Some (CHR 0x08)
      else if e = CHR ''f'' then Some (CHR 0x0C)
      else if e = CHR ''n'' then Some (CHR 0x0A)
      else if e = CHR ''r'' then Some (CHR 0x0D)
      else if e = CHR ''t'' then Some (CHR 0x09)
      else None)"

text \<open>The characters of a string after its opening quote, up to the closing one; the
  result is the string and the text that follows it.\<close>

fun parse_chars :: "string \<Rightarrow> (string \<times> string) option" where
  "parse_chars [] = None"
| "parse_chars (c # cs) =
     (if c = CHR 0x22 then Some ([], cs)
      else if c = CHR 0x5C then
        (case cs of
           [] \<Rightarrow> None
         | e # r \<Rightarrow>
             if e = CHR ''u'' then
               (case r of
                  a # b # c' # d # r' \<Rightarrow>
                    (case unicode_escape a b c' d of
                       None \<Rightarrow> None
                     | Some u \<Rightarrow> map_option (\<lambda>(t, q). (u # t, q)) (parse_chars r'))
                | _ \<Rightarrow> None)
             else
               (case simple_escape e of
                  None \<Rightarrow> None
                | Some u \<Rightarrow> map_option (\<lambda>(t, q). (u # t, q)) (parse_chars r)))
      else if (of_char c :: nat) < 32 then None
      else map_option (\<lambda>(t, q). (c # t, q)) (parse_chars cs))"

text \<open>The digits of a number, most significant first, added to the value read so far.\<close>

fun parse_digits :: "nat \<Rightarrow> string \<Rightarrow> nat \<times> string" where
  "parse_digits acc [] = (acc, [])"
| "parse_digits acc (c # cs) =
     (if is_digit c then parse_digits (acc * 10 + digit_val c) cs else (acc, c # cs))"

text \<open>The integer part of a number: a single 0, or a non-zero digit and more digits.\<close>

fun parse_nat :: "string \<Rightarrow> (nat \<times> string) option" where
  "parse_nat [] = None"
| "parse_nat (c # cs) =
     (if c = CHR ''0'' then Some (0, cs)
      else if is_digit c then Some (parse_digits (digit_val c) cs)
      else None)"

text \<open>A number with a fraction or an exponent is a double: it has no value here.\<close>

definition no_fraction :: "string \<Rightarrow> bool" where
  "no_fraction r = (case r of [] \<Rightarrow> True | c # _ \<Rightarrow> c \<noteq> CHR ''.'' \<and> c \<noteq> CHR ''e'' \<and> c \<noteq> CHR ''E'')"

definition parse_number :: "string \<Rightarrow> (json \<times> string) option" where
  "parse_number s =
     (case s of
        [] \<Rightarrow> None
      | c # cs \<Rightarrow>
          (case (if c = CHR ''-'' then parse_nat cs else parse_nat s) of
             None \<Rightarrow> None
           | Some (n, r) \<Rightarrow>
               if no_fraction r
               then Some (JNum (if c = CHR ''-'' then - int n else int n), r)
               else None))"

definition parse_literal :: "string \<Rightarrow> (json \<times> string) option" where
  "parse_literal s =
     (if take 4 s = ''null'' then Some (JNull, drop 4 s)
      else if take 4 s = ''true'' then Some (JBool True, drop 4 s)
      else if take 5 s = ''false'' then Some (JBool False, drop 5 s)
      else parse_number s)"

text \<open>Defining a property of an object: a key that is there keeps its place and takes
  the new value, a new key goes last.\<close>

fun obj_set :: "string \<Rightarrow> json \<Rightarrow> (string \<times> json) list \<Rightarrow> (string \<times> json) list" where
  "obj_set k v [] = [(k, v)]"
| "obj_set k v ((k', v') # kvs) =
     (if k = k' then (k, v) # kvs else (k', v') # obj_set k v kvs)"

definition obj_of_members :: "(string \<times> json) list \<Rightarrow> (string \<times> json) list" where
  "obj_of_members ms = foldl (\<lambda>obj (k, v). obj_set k v obj) [] ms"

text \<open>
  Values, the elements of an array after its bracket and the members of an object after
  its brace, by recursive descent. The first argument bounds the number of nested calls;
  \<open>JSON_parse\<close> starts with more than twice the length of the text, and no text
  needs more (\<open>parse_value_fuel\<close>).
\<close>

fun parse_value :: "nat \<Rightarrow> string \<Rightarrow> (json \<times> string) option"
  and parse_elements :: "nat \<Rightarrow> string \<Rightarrow> (json list \<times> string) option"
  and parse_members :: "nat \<Rightarrow> string \<Rightarrow> ((string \<times> json) list \<times> string) option"
where
  "parse_value 0 s = None"
| "parse_value (Suc n) s =
     (case skip_ws s of
        [] \<Rightarrow> None
      | c # cs \<Rightarrow>
          if c = CHR 0x22 then map_option (\<lambda>(t, r). (JStr t, r)) (parse_chars cs)
          else if c = CHR ''['' then
            (case skip_ws cs of
               [] \<Rightarrow> None
             | d # r \<Rightarrow>
                 if d = CHR '']'' then Some (JArr [], r)
                 else map_option (\<lambda>(vs, q). (JArr vs, q)) (parse_elements n cs))
          else if c = CHR ''{'' then
            (case skip_ws cs of
               [] \<Rightarrow> None
             | d # r \<Rightarrow>
                 if d = CHR ''}'' then Some (JObj [], r)
                 else map_option (\<lambda>(ms, q). (JObj (obj_of_members ms), q)) (parse_members n cs))
          else parse_literal (c # cs))"
| "parse_elements 0 s = None"
| "parse_elements (Suc n) s =
     (case parse_value n s of
        None \<Rightarrow> None
      | Some (v, r) \<Rightarrow>
          (case skip_ws r of
             [] \<Rightarrow> None
           | c # q \<Rightarrow>
               if c = CHR '','' then map_option (\<lambda>(vs, q'). (v # vs, q')) (parse_elements n q)
               else if c = CHR '']'' then Some ([v], q)
               else None))"
| "parse_members 0 s = None"
| "parse_members (Suc n) s =
     (case skip_ws s of
        [] \<Rightarrow> None
      | c # cs \<Rightarrow>
          if c \<noteq> CHR 0x22 then None
          else
            (case parse_chars cs of
               None \<Rightarrow> None
             | Some (k, r) \<Rightarrow>
                 (case skip_ws r of
                    [] \<Rightarrow> None
                  | c' # r' \<Rightarrow>
                      if c' \<noteq> CHR '':'' then None
                      else
                        (case parse_value n r' of
                           None \<Rightarrow> None
                         | Some (v, q) \<Rightarrow>
                             (case skip_ws q of
                                [] \<Rightarrow> None
                              | c'' # q' \<Rightarrow>
                                  if c'' = CHR '','' then
                                    map_option (\<lambda>(ms, q''). ((k, v) # ms, q'')) (parse_members n q')
                                  else if c'' = CHR ''}'' then Some ([(k, v)], q')
                                  else None)))))"

text \<open>\<^verbatim>\<open>JSON.parse(text)\<close>: one value, white space around it, nothing else; anything else is
  a SyntaxError.\<close>

definition JSON_parse :: "string \<Rightarrow> js_error + json" where
  "JSON_parse s =
     (case parse_value (2 * length s + 2) s of
        None \<Rightarrow> Inl SyntaxError
      | Some (v, r) \<Rightarrow> if skip_ws r = [] then Inr v else Inl SyntaxError)"

section \<open>The data source: cache and fetch\<close>

text \<open>
  The state the code acts on is \<^verbatim>\<open>sessionStorage\<close>, a store of strings under string keys.
  What the code does to the outside is kept as a list of effects, oldest first: sending
  the request, calling a callback, writing the store.
\<close>

datatype error_arg = Caught js_error | ProgressEvent

datatype effect =
    Send string
  | CallSuccess json
  | CallError error_arg
  | SetItem string string

record world =
  sessionStorage :: "string \<rightharpoonup> string"
  effects :: "effect list"

definition perform :: "effect \<Rightarrow> world \<Rightarrow> world" where
  "perform e w = w\<lparr>effects := effects w @ [e]\<rparr>"

text \<open>\<^verbatim>\<open>sessionStorage[key] = value\<close>.\<close>

definition set_item :: "string \<Rightarrow> string \<Rightarrow> world \<Rightarrow> world" where
  "set_item k v w = perform (SetItem k v) (w\<lparr>sessionStorage := (sessionStorage w)(k \<mapsto> v)\<rparr>)"

text \<open>
  What comes back from the request: the \<^verbatim>\<open>load\<close> event with the status and the body of
  the response, or the \<^verbatim>\<open>error\<close> event of a failed transport.
\<close>

datatype xhr_event = Load nat string | ErrorEvent

text \<open>
  A success callback is given by what it does to its caller: it returns (\<open>None\<close>) or
  throws. The callbacks of this repository neither write \<^verbatim>\<open>sessionStorage\<close> nor change
  the array they are given.
\<close>

type_synonym callback = "json \<Rightarrow> js_error option"

definition request_path :: "string \<Rightarrow> string" where
  "request_path username = baseUrl @ ''/users/'' @ username @ ''/repos''"

text \<open>The listener of \<^verbatim>\<open>load\<close> in \<^verbatim>\<open>fetchUserRepos\<close>.\<close>

definition on_load ::
  "(string \<Rightarrow> int option) \<Rightarrow> string \<Rightarrow> callback \<Rightarrow> nat \<Rightarrow> string \<Rightarrow> world \<Rightarrow> world" where
  "on_load dp username successCallback status response w =
     (if status = 200 then
        (case JSON_parse response of
           Inl e \<Rightarrow> perform (CallError (Caught e)) w
         | Inr data \<Rightarrow>
             (case filterWithPages dp data of
                Inl e \<Rightarrow> perform (CallError (Caught e)) w
              | Inr filtered \<Rightarrow>
                  (let w' = perform (CallSuccess (JArr filtered)) w
                   in case successCallback (JArr filtered) of
                        Some e \<Rightarrow> perform (CallError (Caught e)) w'
                      | None \<Rightarrow> set_item username (stringify (JArr filtered)) w')))
      else w)"

text \<open>\<^verbatim>\<open>GitHubAPI.prototype.fetchUserRepos\<close>, run up to the event that ends the request.\<close>

definition fetchUserRepos ::
  "(string \<Rightarrow> int option) \<Rightarrow> string \<Rightarrow> callback \<Rightarrow> xhr_event \<Rightarrow> world \<Rightarrow> world" where
  "fetchUserRepos dp username successCallback ev w =
     (let w' = perform (Send (request_path username)) w
      in case ev of
           Load status response \<Rightarrow> on_load dp username successCallback status response w'
         | ErrorEvent \<Rightarrow> perform (CallError ProgressEvent) w')"

text \<open>\<^verbatim>\<open>GitHubAPI.prototype.getRepos\<close>. A key that is not in the store reads as
  \<^verbatim>\<open>undefined\<close>, which \<^verbatim>\<open>JSON.parse\<close> converts to the string \<^verbatim>\<open>undefined\<close>. The call of the
  success callback is inside the \<^verbatim>\<open>try\<close> block.\<close>

definition getRepos ::
  "(string \<Rightarrow> int option) \<Rightarrow> string \<Rightarrow> callback \<Rightarrow> xhr_event \<Rightarrow> world \<Rightarrow> world" where
  "getRepos dp username successCallback ev w =
     (let json = (case sessionStorage w username of None \<Rightarrow> ''undefined'' | Some j \<Rightarrow> j)
      in case JSON_parse json of
           Inl e \<Rightarrow> fetchUserRepos dp username successCallback ev w
         | Inr repos \<Rightarrow>
             (let w' = perform (CallSuccess repos) w
              in case successCallback repos of
                   None \<Rightarrow> w'
                 | Some e \<Rightarrow> fetchUserRepos dp username successCallback ev w'))"

section \<open>The renderer\<close>

text \<open>
  \<^verbatim>\<open>GitHubReposComponent.templateRegExp\<close> is \<^verbatim>\<open>/\{\{\s*(\w+)\s*\}\}/g\<close>. The classes \<^verbatim>\<open>\s\<close>
  and \<^verbatim>\<open>\w\<close> over the characters of this development:
\<close>

definition is_space :: "char \<Rightarrow> bool" where
  "is_space c = (let n = (of_char c :: nat) in (9 \<le> n \<and> n \<le> 13) \<or> n = 32 \<or> n = 160)"

definition is_word :: "char \<Rightarrow> bool" where
  "is_word c =
     (let n = (of_char c :: nat)
      in (48 \<le> n \<and> n \<le> 57) \<or> (65 \<le> n \<and> n \<le> 90) \<or> n = 95 \<or> (97 \<le> n \<and> n \<le> 122))"

text \<open>
  A match of the expression at the start of a text: the key and the text after the
  match. The two classes share no character and neither has a brace, so the greedy
  match is the only one.
\<close>

definition match_token :: "string \<Rightarrow> (string \<times> string) option" where
  "match_token s =
     (if take 2 s = ''{{'' then
        (let r1 = dropWhile is_space (drop 2 s);
             key = takeWhile is_word r1;
             r2 = dropWhile is_space (dropWhile is_word r1)
         in if key \<noteq> [] \<and> take 2 r2 = ''}}'' then Some (key, drop 2 r2) else None)
      else None)"

lemma match_token_shorter: "match_token s = Some (key, rest) \<Longrightarrow> length rest < length s"
proof -
  assume m: "match_token s = Some (key, rest)"
  have le: "\<And>P (xs :: string). length (dropWhile P xs) \<le> length xs"
    by (simp add: length_dropWhile_le)
  from m obtain r2 where r: "rest = drop 2 r2" and t: "take 2 s = ''{{''"
    and r2: "r2 = dropWhile is_space (dropWhile is_word (dropWhile is_space (drop 2 s)))"
    by (auto simp: match_token_def Let_def split: if_splits)
  have "length r2 \<le> length (drop 2 s)"
    unfolding r2 using le le_trans by blast
  moreover from t have "2 \<le> length s"
    by (cases s; cases "tl s") auto
  ultimately show ?thesis using r by simp
qed

text \<open>
  What the host supplies to the string form of a value: the text of a built-in function,
  by the function's name (\<^verbatim>\<open>Function.prototype.toString\<close> leaves its white space to the
  host), and the digits of a number beyond the integers that every double separates,
  which the host shortens.
\<close>

record host =
  function_text :: "string \<Rightarrow> string"
  number_text :: "int \<Rightarrow> string"

definition safe_integer :: "int \<Rightarrow> bool" where
  "safe_integer n = (- 9007199254740992 < n \<and> n < 9007199254740992)"

text \<open>\<^verbatim>\<open>String(v)\<close>, which \<^verbatim>\<open>replace\<close> applies to what its callback returns.\<close>

fun ToString :: "host \<Rightarrow> json \<Rightarrow> string" where
  "ToString h JNull = ''null''"
| "ToString h (JBool b) = (if b then ''true'' else ''false'')"
| "ToString h (JNum n) = (if safe_integer n then string_of_int n else number_text h n)"
| "ToString h (JStr s) = s"
| "ToString h (JArr xs) =
     join '','' (map (\<lambda>x. if x = JNull then [] else ToString h x) xs)"
| "ToString h (JObj kvs) = ''[object Object]''"

text \<open>
  \<^verbatim>\<open>repo[key]\<close> on a plain object: its own property of that name, and otherwise the
  member of that name that every object inherits from \<^verbatim>\<open>Object.prototype\<close>: one of its
  functions (\<^verbatim>\<open>constructor\<close> is the function named \<^verbatim>\<open>Object\<close>, the others are named as
  their key) or, for \<^verbatim>\<open>__proto__\<close>, the prototype object itself.
\<close>

datatype member = Field json | Builtin string | Prototype | Missing

definition object_prototype_functions :: "string list" where
  "object_prototype_functions =
     [''hasOwnProperty'', ''isPrototypeOf'', ''propertyIsEnumerable'', ''toLocaleString'',
      ''toString'', ''valueOf'', ''__defineGetter__'', ''__defineSetter__'',
      ''__lookupGetter__'', ''__lookupSetter__'']"

definition get_member :: "(string \<times> json) list \<Rightarrow> string \<Rightarrow> member" where
  "get_member repo key =
     (case map_of repo key of
        Some v \<Rightarrow> Field v
      | None \<Rightarrow>
          if key = ''__proto__'' then Prototype
          else if key = ''constructor'' then Builtin ''Object''
          else if key \<in> set object_prototype_functions then Builtin key
          else Missing)"

text \<open>The replacement for a key, \<^verbatim>\<open>repo[key] || ''\<close>, converted to a string by \<^verbatim>\<open>replace\<close>.
  A function and the prototype object are truthy; the prototype object prints as any
  plain object does.\<close>

definition substitute :: "host \<Rightarrow> (string \<times> json) list \<Rightarrow> string \<Rightarrow> string" where
  "substitute h repo key =
     (case get_member repo key of
        Field v \<Rightarrow> if truthy v then ToString h v else []
      | Builtin name \<Rightarrow> function_text h name
      | Prototype \<Rightarrow> ''[object Object]''
      | Missing \<Rightarrow> [])"

text \<open>\<^verbatim>\<open>template.replace(re, f)\<close> with the global expression: matches are searched from the
  left, each search starting after the last match.\<close>

function replace_tokens :: "(string \<Rightarrow> string) \<Rightarrow> string \<Rightarrow> string" where
  "replace_tokens f [] = []"
| "replace_tokens f (c # cs) =
     (case match_token (c # cs) of
        Some (key, rest) \<Rightarrow> f key @ replace_tokens f rest
      | None \<Rightarrow> c # replace_tokens f cs)"
  by pat_completeness auto
termination
  by (relation "measure (\<lambda>(f, s). length s)") (auto dest: match_token_shorter)

text \<open>The markup \<^verbatim>\<open>_render\<close> gives to the new element.\<close>

definition render :: "host \<Rightarrow> string \<Rightarrow> (string \<times> json) list \<Rightarrow> string" where
  "render h template repo = replace_tokens (substitute h repo) template"




section \<open>Repository records and examples\<close>

text \<open>
  A repository record, as the GitHub API gives it: an object whose \<^verbatim>\<open>name\<close> is a string,
  whose \<^verbatim>\<open>has_pages\<close> is a boolean and whose \<^verbatim>\<open>updated_at\<close> is a string that the host
  reads as a date.
\<close>

definition repo_record :: "(string \<Rightarrow> int option) \<Rightarrow> json \<Rightarrow> bool" where
  "repo_record dp r =
     (case r of
        JObj kvs \<Rightarrow>
          (case map_of kvs ''name'' of Some (JStr s) \<Rightarrow> True | _ \<Rightarrow> False) \<and>
          (case map_of kvs ''has_pages'' of Some (JBool b) \<Rightarrow> True | _ \<Rightarrow> False) \<and>
          (case map_of kvs ''updated_at'' of Some (JStr s) \<Rightarrow> dp s \<noteq> None | _ \<Rightarrow> False)
      | _ \<Rightarrow> False)"

text \<open>The records of the end-to-end example, and a list with equal dates.\<close>

definition example_dates :: "string \<Rightarrow> int option" where
  "example_dates s =
     (if s = ''2020-01-01'' then Some 1577836800000
      else if s = ''2021-01-01'' then Some 1609459200000
      else if s = ''2022-01-01'' then Some 1640995200000
      else None)"

definition example_repo :: "string \<Rightarrow> bool \<Rightarrow> string \<Rightarrow> json" where
  "example_repo n p u = JObj [(''name'', JStr n), (''has_pages'', JBool p), (''updated_at'', JStr u)]"

definition example_repos :: "json list" where
  "example_repos =
     [example_repo ''x'' True ''2020-01-01'',
      example_repo ''y'' False ''2021-01-01'',
      example_repo ''liamnewmarch.github.io'' True ''2022-01-01'']"


text \<open>Worlds and callbacks for the examples: an empty store, a store with a truncated
  entry, one with the entry \<^verbatim>\<open>null\<close> and one with an empty list; a callback that returns
  and one that throws.\<close>

definition empty_world :: world where
  "empty_world = \<lparr>sessionStorage = Map.empty, effects = []\<rparr>"

definition returns :: callback where
  "returns v = None"

definition throws :: callback where
  "throws v = Some (Thrown ''render failed'')"



definition cached_world :: world where
  "cached_world = \<lparr>sessionStorage = [''liamnewmarch'' \<mapsto> ''[]''], effects = []\<rparr>"


section \<open>Values in memory\<close>



section \<open>Properties of the filter and the sort\<close>

lemma filter_js_total:
  "\<forall>x \<in> set xs. \<exists>b. p x = Inr b \<Longrightarrow> filter_js p xs = Inr (filter (\<lambda>x. p x = Inr True) xs)"
  by (induction xs) auto

lemma repo_record_keep:
  "repo_record dp r \<Longrightarrow> \<exists>b. keep_repo r = Inr b"
  by (cases r) (auto simp: repo_record_def)

lemma sort_js_snoc: "sort_js c (xs @ [x]) = insert_by c x (sort_js c xs)"
  by (simp add: sort_js_def)

lemma set_insert_by: "set (insert_by c x ys) = insert x (set ys)"
  by (induction ys) auto

lemma set_sort_js: "set (sort_js c xs) = set xs"
  by (induction xs rule: rev_induct) (auto simp: sort_js_snoc set_insert_by sort_js_def)






lemma keep_repo_record:
  assumes "repo_record dp r"
  shows "(keep_repo r = Inr True) =
         (get_prop r ''has_pages'' = Some (JBool True) \<and>
          (\<exists>s. get_prop r ''name'' = Some (JStr s) \<and> s \<notin> set exclude))"
  using assms
  by (cases r) (auto simp: repo_record_def split: option.splits json.splits)

lemma filterWithPages_records:
  assumes "list_all (repo_record dp) repos"
  shows "filterWithPages dp (JArr repos) =
         Inr (sort_js (by_updated_at dp) (filter (\<lambda>r. keep_repo r = Inr True) repos))"
proof -
  have "\<forall>r \<in> set repos. \<exists>b. keep_repo r = Inr b"
    using assms repo_record_keep by (auto simp: list_all_iff)
  then show ?thesis by (simp add: filter_js_total)
qed

lemma filter_js_kept: "filter_js p xs = Inr ys \<Longrightarrow> y \<in> set ys \<Longrightarrow> p y = Inr True"
  by (induction xs arbitrary: ys) (auto split: sum.splits if_splits)

lemma filterWithPages_kept:
  assumes "filterWithPages dp data = Inr out" and "r \<in> set out"
  shows "truthy_opt (get_prop r ''has_pages'') \<and> \<not> exclude_includes (get_prop r ''name'')"
proof (cases data)
  case (JArr repos)
  with assms(1) obtain kept where k: "filter_js keep_repo repos = Inr kept"
    "out = sort_js (by_updated_at dp) kept"
    by (auto split: sum.splits)
  then have "keep_repo r = Inr True"
    using assms(2) filter_js_kept [OF k(1), of r] by (simp add: set_sort_js)
  then show ?thesis by (cases r) auto
qed (use assms(1) in simp_all)

text \<open>
  C2. For every list of repository records the filter step returns a list, and every
  record of that list is one of the input with \<^verbatim>\<open>has_pages\<close> true and a name outside
  the exclusion set: no record failing either condition is in the output.
\<close>

theorem C2_filter_only_pages_not_excluded:
  assumes "list_all (repo_record dp) repos"
  shows "\<exists>out. filterWithPages dp (JArr repos) = Inr out \<and>
           (\<forall>r \<in> set out. r \<in> set repos \<and>
              get_prop r ''has_pages'' = Some (JBool True) \<and>
              (\<exists>s. get_prop r ''name'' = Some (JStr s) \<and> s \<notin> set exclude))"
proof -
  let ?kept = "filter (\<lambda>r. keep_repo r = Inr True) repos"
  have "\<forall>r \<in> set (sort_js (by_updated_at dp) ?kept). r \<in> set repos \<and>
              get_prop r ''has_pages'' = Some (JBool True) \<and>
              (\<exists>s. get_prop r ''name'' = Some (JStr s) \<and> s \<notin> set exclude)"
    using assms keep_repo_record by (auto simp: set_sort_js list_all_iff)
  then show ?thesis
    using filterWithPages_records [OF assms] by blast
qed

theorem C2_witness:
  "list_all (repo_record example_dates) example_repos \<and>
   (\<exists>out. filterWithPages example_dates (JArr example_repos) = Inr out \<and>
           (\<forall>r \<in> set out. r \<in> set example_repos \<and>
              get_prop r ''has_pages'' = Some (JBool True) \<and>
              (\<exists>s. get_prop r ''name'' = Some (JStr s) \<and> s \<notin> set exclude)))"
proof -
  have h: "list_all (repo_record example_dates) example_repos"
    by (simp add: example_repos_def example_repo_def repo_record_def example_dates_def)
  show ?thesis
    using h C2_filter_only_pages_not_excluded [OF h] by blast
qed




section \<open>Properties of the cache and the fetch\<close>

lemma parse_undefined: "JSON_parse ''undefined'' = Inl SyntaxError"
  by code_simp

lemma parse_empty_array: "JSON_parse ''[]'' = Inr (JArr [])"
  by code_simp



lemma filter_empty: "filterWithPages dp (JArr []) = Inr []"
  by (simp add: sort_js_def)

lemma stringify_empty: "stringify (JArr []) = ''[]''"
  by simp

lemma effects_perform [simp]: "effects (perform e w) = effects w @ [e]"
  by (simp add: perform_def)

lemma storage_perform [simp]: "sessionStorage (perform e w) = sessionStorage w"
  by (simp add: perform_def)

lemma effects_set_item [simp]: "effects (set_item k v w) = effects w @ [SetItem k v]"
  by (simp add: set_item_def)

lemma storage_set_item [simp]: "sessionStorage (set_item k v w) = (sessionStorage w)(k \<mapsto> v)"
  by (simp add: set_item_def)

lemma fetchUserRepos_non_200:
  "status \<noteq> 200 \<Longrightarrow>
   fetchUserRepos dp username successCallback (Load status response) w =
   perform (Send (request_path username)) w"
  by (simp add: fetchUserRepos_def on_load_def)

lemma fetchUserRepos_transport_error:
  "fetchUserRepos dp username successCallback ErrorEvent w =
   perform (CallError ProgressEvent) (perform (Send (request_path username)) w)"
  by (simp add: fetchUserRepos_def)

lemma fetch_success:
  assumes "JSON_parse response = Inr data" and "filterWithPages dp data = Inr filtered"
    and "successCallback (JArr filtered) = None"
  shows "fetchUserRepos dp username successCallback (Load 200 response) w =
         set_item username (stringify (JArr filtered))
           (perform (CallSuccess (JArr filtered)) (perform (Send (request_path username)) w))"
  using assms by (simp add: fetchUserRepos_def on_load_def)

lemma fetch_success_throw:
  assumes "JSON_parse response = Inr data" and "filterWithPages dp data = Inr filtered"
    and "successCallback (JArr filtered) = Some e"
  shows "fetchUserRepos dp username successCallback (Load 200 response) w =
         perform (CallError (Caught e))
           (perform (CallSuccess (JArr filtered)) (perform (Send (request_path username)) w))"
  using assms by (simp add: fetchUserRepos_def on_load_def)

lemma getRepos_miss:
  "sessionStorage w username = None \<Longrightarrow>
   getRepos dp username successCallback ev w = fetchUserRepos dp username successCallback ev w"
  by (simp add: getRepos_def parse_undefined)

lemma returns_None: "returns v = None"
  by (simp add: returns_def)

lemma example_fetch_empty:
  "getRepos example_dates ''liamnewmarch'' returns (Load 200 ''[]'') empty_world =
   set_item ''liamnewmarch'' ''[]''
     (perform (CallSuccess (JArr [])) (perform (Send (request_path ''liamnewmarch'')) empty_world))"
proof -
  have "sessionStorage empty_world ''liamnewmarch'' = None"
    by (simp add: empty_world_def)
  then show ?thesis
    using fetch_success [where successCallback = returns, OF parse_empty_array filter_empty returns_None]
    by (simp add: getRepos_miss)
qed

lemma throws_Some: "throws v = Some (Thrown ''render failed'')"
  by (simp add: throws_def)

text \<open>
  C1. A response with a status other than 200 reaches the \<^verbatim>\<open>load\<close> listener, which has no
  branch for it: for the status 404 the request is sent and no callback is called. (The
  \<^verbatim>\<open>error\<close> event of a failed transport does call the error callback,
  \<open>fetchUserRepos_transport_error\<close>.)
\<close>

theorem C1_status_404_no_callback:
  "effects (fetchUserRepos example_dates ''liamnewmarch'' returns (Load 404 ''Not Found'') empty_world) =
   [Send ''https://api.github.com/users/liamnewmarch/repos'']"
  by (simp add: fetchUserRepos_def on_load_def empty_world_def request_path_def baseUrl_def)




text \<open>
  C5. On a cache hit whose delivery returns, \<^verbatim>\<open>getRepos\<close> only calls the success callback
  and leaves the store as it is. Whenever \<^verbatim>\<open>getRepos\<close> changes the store or writes an
  entry, the request was sent and answered with status 200, the body was parsed and
  filtered, and the success callback returned.
\<close>

theorem C5_cache_written_only_on_successful_fetch:
  "(sessionStorage w username = Some json \<and> JSON_parse json = Inr repos \<and>
      successCallback repos = None
    \<longrightarrow> getRepos dp username successCallback ev w = perform (CallSuccess repos) w \<and>
        sessionStorage (getRepos dp username successCallback ev w) = sessionStorage w) \<and>
   (sessionStorage (getRepos dp username successCallback ev w) \<noteq> sessionStorage w \<or>
      (\<exists>k v. SetItem k v \<in> set (effects (getRepos dp username successCallback ev w)) - set (effects w))
    \<longrightarrow> (\<exists>response data filtered.
          ev = Load 200 response \<and> JSON_parse response = Inr data \<and>
          filterWithPages dp data = Inr filtered \<and> successCallback (JArr filtered) = None \<and>
          Send (request_path username) \<in> set (effects (getRepos dp username successCallback ev w))))"
proof -
  have fetch: "\<And>w. (sessionStorage (fetchUserRepos dp username successCallback ev w) \<noteq> sessionStorage w \<or>
      (\<exists>k v. SetItem k v \<in> set (effects (fetchUserRepos dp username successCallback ev w)) - set (effects w)))
    \<Longrightarrow> (\<exists>response data filtered.
          ev = Load 200 response \<and> JSON_parse response = Inr data \<and>
          filterWithPages dp data = Inr filtered \<and> successCallback (JArr filtered) = None) \<and>
          Send (request_path username) \<in> set (effects (fetchUserRepos dp username successCallback ev w))"
    by (auto simp: fetchUserRepos_def on_load_def Let_def
        split: xhr_event.splits sum.splits option.splits if_splits)
  have hit: "sessionStorage w username = Some json \<and> JSON_parse json = Inr repos \<and>
      successCallback repos = None
    \<longrightarrow> getRepos dp username successCallback ev w = perform (CallSuccess repos) w \<and>
        sessionStorage (getRepos dp username successCallback ev w) = sessionStorage w"
    by (simp add: getRepos_def)
  have "getRepos dp username successCallback ev w = fetchUserRepos dp username successCallback ev w \<or>
        getRepos dp username successCallback ev w = perform (CallSuccess (projr (JSON_parse (case sessionStorage w username of None \<Rightarrow> ''undefined'' | Some j \<Rightarrow> j)))) w \<or>
        getRepos dp username successCallback ev w =
          fetchUserRepos dp username successCallback ev (perform (CallSuccess (projr (JSON_parse (case sessionStorage w username of None \<Rightarrow> ''undefined'' | Some j \<Rightarrow> j)))) w)"
    by (simp add: getRepos_def Let_def split: sum.splits option.splits)
  then consider
      (a) "getRepos dp username successCallback ev w = fetchUserRepos dp username successCallback ev w"
    | (b) v where "getRepos dp username successCallback ev w = perform (CallSuccess v) w"
    | (c) v where "getRepos dp username successCallback ev w =
          fetchUserRepos dp username successCallback ev (perform (CallSuccess v) w)"
    by blast
  then have wr: "sessionStorage (getRepos dp username successCallback ev w) \<noteq> sessionStorage w \<or>
      (\<exists>k v. SetItem k v \<in> set (effects (getRepos dp username successCallback ev w)) - set (effects w))
    \<longrightarrow> (\<exists>response data filtered.
          ev = Load 200 response \<and> JSON_parse response = Inr data \<and>
          filterWithPages dp data = Inr filtered \<and> successCallback (JArr filtered) = None \<and>
          Send (request_path username) \<in> set (effects (getRepos dp username successCallback ev w)))"
  proof cases
    case a
    then show ?thesis using fetch [of w] by auto
  next
    case (b v)
    then show ?thesis by auto
  next
    case (c v)
    then show ?thesis using fetch [of "perform (CallSuccess v) w"] by auto
  qed
  show ?thesis using hit wr by blast
qed


theorem C5_witness:
  "(sessionStorage cached_world ''liamnewmarch'' = Some ''[]'' \<and>
    JSON_parse ''[]'' = Inr (JArr []) \<and> returns (JArr []) = None \<and>
    getRepos example_dates ''liamnewmarch'' returns ErrorEvent cached_world =
      perform (CallSuccess (JArr [])) cached_world \<and>
    sessionStorage (getRepos example_dates ''liamnewmarch'' returns ErrorEvent cached_world) =
      sessionStorage cached_world) \<and>
   (sessionStorage (getRepos example_dates ''liamnewmarch'' returns (Load 200 ''[]'') empty_world)
      \<noteq> sessionStorage empty_world \<and>
    (\<exists>response data filtered.
       Load 200 ''[]'' = Load 200 response \<and> JSON_parse response = Inr data \<and>
       filterWithPages example_dates data = Inr filtered \<and> returns (JArr filtered) = None \<and>
       Send (request_path ''liamnewmarch'') \<in>
         set (effects (getRepos example_dates ''liamnewmarch'' returns (Load 200 ''[]'') empty_world))))"
proof -
  have a: "sessionStorage cached_world ''liamnewmarch'' = Some ''[]''"
    by (simp add: cached_world_def)
  have b: "sessionStorage (getRepos example_dates ''liamnewmarch'' returns (Load 200 ''[]'') empty_world)
      \<noteq> sessionStorage empty_world"
  proof
    assume "sessionStorage (getRepos example_dates ''liamnewmarch'' returns (Load 200 ''[]'') empty_world)
      = sessionStorage empty_world"
    then have "sessionStorage (getRepos example_dates ''liamnewmarch'' returns (Load 200 ''[]'') empty_world) ''liamnewmarch''
      = sessionStorage empty_world ''liamnewmarch''" by simp
    then show False by (simp add: example_fetch_empty) (simp add: empty_world_def)
  qed
  show ?thesis
    using a b parse_empty_array returns_None
      C5_cache_written_only_on_successful_fetch
        [of cached_world "''liamnewmarch''" "''[]''" "JArr []" returns example_dates ErrorEvent]
      C5_cache_written_only_on_successful_fetch
        [of empty_world "''liamnewmarch''" "''[]''" "JArr []" returns example_dates "Load 200 ''[]''"]
    by blast
qed

text \<open>
  C6, as stated: the store is written before the list is delivered. On the successful
  fetch of an empty list no write comes before the call of the success callback.
\<close>

theorem C6_counterexample:
  "\<not> (\<exists>pre post k v.
        effects (fetchUserRepos example_dates ''liamnewmarch'' returns (Load 200 ''[]'') empty_world) =
          pre @ SetItem k v # post \<and>
        CallSuccess (JArr []) \<in> set post)"
proof -
  have e: "effects (fetchUserRepos example_dates ''liamnewmarch'' returns (Load 200 ''[]'') empty_world) =
        [Send (request_path ''liamnewmarch''), CallSuccess (JArr []), SetItem ''liamnewmarch'' ''[]'']"
    using fetch_success [where successCallback = returns, OF parse_empty_array filter_empty returns_None]
    by (simp add: empty_world_def)
  show ?thesis
    unfolding e by (auto simp: append_eq_Cons_conv Cons_eq_append_conv)
qed

text \<open>
  C6, amended. On a successful fetch whose success callback returns, the callback is
  called with the filtered and sorted list first, and the write of the serialised list
  under the user name is the next effect.
\<close>

theorem C6_callback_then_cache_write:
  assumes "JSON_parse response = Inr data" and "filterWithPages dp data = Inr filtered"
    and "successCallback (JArr filtered) = None"
  shows "effects (fetchUserRepos dp username successCallback (Load 200 response) w) =
           effects w @ [Send (request_path username), CallSuccess (JArr filtered),
                        SetItem username (stringify (JArr filtered))] \<and>
         sessionStorage (fetchUserRepos dp username successCallback (Load 200 response) w) =
           (sessionStorage w)(username \<mapsto> stringify (JArr filtered))"
  using assms fetch_success [where successCallback = successCallback and response = response
      and data = data and filtered = filtered and dp = dp and username = username and w = w]
  by simp

theorem C6_witness:
  "JSON_parse ''[]'' = Inr (JArr []) \<and> filterWithPages example_dates (JArr []) = Inr [] \<and>
   returns (JArr []) = None \<and>
   effects (fetchUserRepos example_dates ''liamnewmarch'' returns (Load 200 ''[]'') empty_world) =
     effects empty_world @ [Send (request_path ''liamnewmarch''), CallSuccess (JArr []),
                  SetItem ''liamnewmarch'' (stringify (JArr []))] \<and>
   sessionStorage (fetchUserRepos example_dates ''liamnewmarch'' returns (Load 200 ''[]'') empty_world) =
     (sessionStorage empty_world)(''liamnewmarch'' \<mapsto> stringify (JArr []))"
  using parse_empty_array filter_empty [of example_dates] returns_None [of "JArr []"]
    C6_callback_then_cache_write [where successCallback = returns and response = "''[]''"
      and data = "JArr []" and filtered = "[]" and dp = example_dates
      and username = "''liamnewmarch''" and w = empty_world]
  by blast

text \<open>
  C9. On a response with status 200 and a body that parses and filters, a success callback
  that throws is followed by a call of the error callback with what was thrown: both
  callbacks are called, and the store is not written.
\<close>

theorem C9_throwing_success_callback:
  assumes "JSON_parse response = Inr data" and "filterWithPages dp data = Inr filtered"
    and "successCallback (JArr filtered) = Some e"
  shows "effects (fetchUserRepos dp username successCallback (Load 200 response) w) =
           effects w @ [Send (request_path username), CallSuccess (JArr filtered),
                        CallError (Caught e)] \<and>
         sessionStorage (fetchUserRepos dp username successCallback (Load 200 response) w) =
           sessionStorage w"
  using assms fetch_success_throw [where successCallback = successCallback and response = response
      and data = data and filtered = filtered and dp = dp and username = username and w = w and e = e]
  by simp

theorem C9_witness:
  "JSON_parse ''[]'' = Inr (JArr []) \<and> filterWithPages example_dates (JArr []) = Inr [] \<and>
   throws (JArr []) = Some (Thrown ''render failed'') \<and>
   effects (fetchUserRepos example_dates ''liamnewmarch'' throws (Load 200 ''[]'') empty_world) =
     effects empty_world @ [Send (request_path ''liamnewmarch''), CallSuccess (JArr []),
                  CallError (Caught (Thrown ''render failed''))] \<and>
   sessionStorage (fetchUserRepos example_dates ''liamnewmarch'' throws (Load 200 ''[]'') empty_world) =
     sessionStorage empty_world"
  using parse_empty_array filter_empty [of example_dates] throws_Some [of "JArr []"]
    C9_throwing_success_callback [where successCallback = throws and response = "''[]''"
      and data = "JArr []" and filtered = "[]" and dp = example_dates
      and username = "''liamnewmarch''" and w = empty_world and e = "Thrown ''render failed''"]
  by blast



section \<open>Properties of JSON text\<close>

text \<open>The parser never stops for want of nested calls: a sub-parser returns a shorter
  text, and from twice the length of the text on, a larger bound gives the same result.\<close>

lemma length_skip_ws: "length (skip_ws s) \<le> length s"
  by (simp add: skip_ws_def length_dropWhile_le)

lemma skip_ws_Cons_length: "skip_ws s = c # cs \<Longrightarrow> length cs < length s"
  using length_skip_ws [of s] by simp

lemma parse_chars_shorter: "parse_chars cs = Some (k, r) \<Longrightarrow> length r < length cs"
proof (induction cs arbitrary: k r rule: parse_chars.induct)
  case 1
  then show ?case by simp
next
  case (2 c cs)
  show ?case
  proof (cases "c = CHR 0x22")
    case True
    with "2.prems" show ?thesis by simp
  next
    case nq: False
    show ?thesis
    proof (cases "c = CHR 0x5C")
      case True
      with nq "2.prems" obtain e r0 where cs: "cs = e # r0"
        by (cases cs) auto
      show ?thesis
      proof (cases "e = CHR ''u''")
        case u: True
        with nq True cs "2.prems" obtain a b c' d r' where r0: "r0 = a # b # c' # d # r'"
          by (auto split: list.splits)
        with nq True cs u "2.prems" obtain x t where
          "unicode_escape a b c' d = Some x" "parse_chars r' = Some (t, r)"
          by (auto split: option.splits)
        then have "length r < length r'"
          using "2.IH"(1) [OF nq True cs u r0] by blast
        then show ?thesis using cs r0 by simp
      next
        case nu: False
        with nq True cs "2.prems" obtain x t where
          x: "simple_escape e = Some x" "parse_chars r0 = Some (t, r)"
          by (auto split: option.splits)
        then have "length r < length r0"
          using "2.IH"(2) [OF nq True cs nu] by blast
        then show ?thesis using cs by simp
      qed
    next
      case False
      with nq "2.prems" obtain t where "parse_chars cs = Some (t, r)"
        by (auto split: if_splits)
      then have "length r < length cs"
        using "2.IH"(3) [OF nq False] "2.prems" nq False by (auto split: if_splits)
      then show ?thesis by simp
    qed
  qed
qed


lemma parse_digits_length: "length (snd (parse_digits acc cs)) \<le> length cs"
  by (induction cs arbitrary: acc) (auto intro: le_SucI)

lemma parse_nat_shorter: "parse_nat s = Some (n, r) \<Longrightarrow> length r < length s"
proof (cases s)
  case Nil
  assume "parse_nat s = Some (n, r)"
  with Nil show ?thesis by simp
next
  case (Cons c cs)
  assume p: "parse_nat s = Some (n, r)"
  show ?thesis
  proof (cases "c = CHR ''0''")
    case True
    with p Cons show ?thesis by simp
  next
    case False
    with p Cons have "r = snd (parse_digits (digit_val c) cs)"
      by (auto split: if_splits)
    then show ?thesis
      using parse_digits_length [of "digit_val c" cs] Cons by simp
  qed
qed

lemma parse_number_shorter: "parse_number s = Some (v, r) \<Longrightarrow> length r < length s"
proof -
  assume p: "parse_number s = Some (v, r)"
  then obtain c cs where s: "s = c # cs"
    by (cases s) (auto simp: parse_number_def)
  show ?thesis
  proof (cases "c = CHR ''-''")
    case True
    with p s obtain n where "parse_nat cs = Some (n, r)"
      by (auto simp: parse_number_def split: option.splits if_splits)
    then show ?thesis using parse_nat_shorter s by fastforce
  next
    case False
    with p s obtain n where "parse_nat s = Some (n, r)"
      by (auto simp: parse_number_def split: option.splits if_splits)
    then show ?thesis using parse_nat_shorter by blast
  qed
qed

lemma take_eq_length: "take n s = t \<Longrightarrow> length t = n \<Longrightarrow> n \<le> length s"
  by (metis length_take min.cobounded1 min_def)

lemma parse_literal_shorter: "parse_literal s = Some (v, r) \<Longrightarrow> length r < length s"
proof -
  assume p: "parse_literal s = Some (v, r)"
  consider (n) "take 4 s = ''null''" | (t) "take 4 s \<noteq> ''null''" "take 4 s = ''true''"
    | (f) "take 4 s \<noteq> ''null''" "take 4 s \<noteq> ''true''" "take 5 s = ''false''"
    | (num) "take 4 s \<noteq> ''null''" "take 4 s \<noteq> ''true''" "take 5 s \<noteq> ''false''"
    by blast
  then show ?thesis
  proof cases
    case n
    then have "4 \<le> length s" by (intro take_eq_length [of 4 s "''null''"]) simp_all
    with p n show ?thesis by (auto simp: parse_literal_def)
  next
    case t
    then have "4 \<le> length s" by (intro take_eq_length [of 4 s "''true''"]) simp_all
    with p t show ?thesis by (auto simp: parse_literal_def)
  next
    case f
    then have "5 \<le> length s" by (intro take_eq_length [of 5 s "''false''"]) simp_all
    with p f show ?thesis by (auto simp: parse_literal_def)
  next
    case num
    with p have "parse_number s = Some (v, r)" by (simp add: parse_literal_def)
    then show ?thesis by (rule parse_number_shorter)
  qed
qed


lemma parse_shorter:
  "(\<forall>s v r. parse_value n s = Some (v, r) \<longrightarrow> length r < length s) \<and>
   (\<forall>s vs r. parse_elements n s = Some (vs, r) \<longrightarrow> length r < length s) \<and>
   (\<forall>s ms r. parse_members n s = Some (ms, r) \<longrightarrow> length r < length s)"
proof (induction n)
  case 0
  then show ?case by simp
next
  case (Suc n)
  have IHv: "\<And>s v r. parse_value n s = Some (v, r) \<Longrightarrow> length r < length s"
    and IHe: "\<And>s vs r. parse_elements n s = Some (vs, r) \<Longrightarrow> length r < length s"
    and IHm: "\<And>s ms r. parse_members n s = Some (ms, r) \<Longrightarrow> length r < length s"
    using Suc by blast+
  have v: "length r < length s" if p: "parse_value (Suc n) s = Some (v, r)" for s v r
  proof (cases "skip_ws s")
    case Nil
    with p show ?thesis by simp
  next
    case (Cons c cs)
    have cs: "length cs < length s" using Cons by (rule skip_ws_Cons_length)
    consider (str) "c = CHR 0x22" | (arr) "c \<noteq> CHR 0x22" "c = CHR ''[''"
      | (obj) "c \<noteq> CHR 0x22" "c \<noteq> CHR ''[''" "c = CHR ''{''"
      | (lit) "c \<noteq> CHR 0x22" "c \<noteq> CHR ''[''" "c \<noteq> CHR ''{''"
      by blast
    then show ?thesis
    proof cases
      case str
      with p Cons obtain t where "parse_chars cs = Some (t, r)" by auto
      then show ?thesis using parse_chars_shorter cs by fastforce
    next
      case arr
      with p Cons obtain d q where d: "skip_ws cs = d # q"
        by (auto split: list.splits)
      show ?thesis
      proof (cases "d = CHR '']''")
        case True
        with p Cons arr d have "r = q" by simp
        then show ?thesis using skip_ws_Cons_length [OF d] cs by simp
      next
        case False
        with p Cons arr d obtain vs where "parse_elements n cs = Some (vs, r)" by auto
        then show ?thesis using IHe cs by fastforce
      qed
    next
      case obj
      with p Cons obtain d q where d: "skip_ws cs = d # q"
        by (auto split: list.splits)
      show ?thesis
      proof (cases "d = CHR ''}''")
        case True
        with p Cons obj d have "r = q" by simp
        then show ?thesis using skip_ws_Cons_length [OF d] cs by simp
      next
        case False
        with p Cons obj d obtain ms where "parse_members n cs = Some (ms, r)" by auto
        then show ?thesis using IHm cs by fastforce
      qed
    next
      case lit
      with p Cons have "parse_literal (c # cs) = Some (v, r)" by simp
      then have "length r < length (c # cs)" by (rule parse_literal_shorter)
      then show ?thesis using cs by simp
    qed
  qed
  have e: "length r < length s" if p: "parse_elements (Suc n) s = Some (vs, r)" for s vs r
  proof -
    from p obtain x q where x: "parse_value n s = Some (x, q)"
      by (auto split: option.splits)
    from p x obtain c q' where c: "skip_ws q = c # q'"
      by (auto split: list.splits)
    have q: "length q < length s" using IHv [OF x] .
    have q': "length q' < length q" using c by (rule skip_ws_Cons_length)
    show ?thesis
    proof (cases "c = CHR '',''")
      case True
      with p x c obtain xs where "parse_elements n q' = Some (xs, r)" by auto
      then show ?thesis using IHe q q' by fastforce
    next
      case False
      with p x c have "r = q'" by (auto split: if_splits)
      then show ?thesis using q q' by simp
    qed
  qed
  have m: "length r < length s" if p: "parse_members (Suc n) s = Some (ms, r)" for s ms r
  proof -
    from p obtain cs where s1: "skip_ws s = CHR 0x22 # cs"
      by (auto split: list.splits if_splits)
    from p s1 obtain k q where k: "parse_chars cs = Some (k, q)"
      by (auto split: option.splits)
    from p s1 k obtain q1 where q1: "skip_ws q = CHR '':'' # q1"
      by (auto split: list.splits if_splits)
    from p s1 k q1 obtain x q2 where x: "parse_value n q1 = Some (x, q2)"
      by (auto split: option.splits)
    from p s1 k q1 x obtain c q3 where c: "skip_ws q2 = c # q3"
      by (auto split: list.splits)
    have l: "length q3 < length s"
      using skip_ws_Cons_length [OF s1] parse_chars_shorter [OF k] skip_ws_Cons_length [OF q1]
        IHv [OF x] skip_ws_Cons_length [OF c]
      by simp
    show ?thesis
    proof (cases "c = CHR '',''")
      case True
      with p s1 k q1 x c obtain xs where "parse_members n q3 = Some (xs, r)" by auto
      then show ?thesis using IHm l by fastforce
    next
      case False
      with p s1 k q1 x c have "r = q3" by (auto split: if_splits)
      then show ?thesis using l by simp
    qed
  qed
  show ?case using v e m by blast
qed

lemma parse_value_shorter: "parse_value n s = Some (v, r) \<Longrightarrow> length r < length s"
  using parse_shorter [of n] by blast


lemma parse_fuel:
  "(\<forall>s m. 2 * length s + 1 \<le> n \<and> n \<le> m \<longrightarrow> parse_value m s = parse_value n s) \<and>
   (\<forall>s m. 2 * length s + 2 \<le> n \<and> n \<le> m \<longrightarrow> parse_elements m s = parse_elements n s) \<and>
   (\<forall>s m. 2 * length s + 2 \<le> n \<and> n \<le> m \<longrightarrow> parse_members m s = parse_members n s)"
proof (induction n)
  case 0
  then show ?case by simp
next
  case (Suc n)
  have IHv: "\<And>s m. 2 * length s + 1 \<le> n \<Longrightarrow> n \<le> m \<Longrightarrow> parse_value m s = parse_value n s"
    and IHe: "\<And>s m. 2 * length s + 2 \<le> n \<Longrightarrow> n \<le> m \<Longrightarrow> parse_elements m s = parse_elements n s"
    and IHm: "\<And>s m. 2 * length s + 2 \<le> n \<Longrightarrow> n \<le> m \<Longrightarrow> parse_members m s = parse_members n s"
    using Suc by blast+
  have v: "parse_value m s = parse_value (Suc n) s"
    if l: "2 * length s + 1 \<le> Suc n" and le: "Suc n \<le> m" for s m
  proof -
    from le obtain m' where m: "m = Suc m'" "n \<le> m'" by (cases m) auto
    show ?thesis
    proof (cases "skip_ws s")
      case Nil
      then show ?thesis by (simp add: m(1) cong: list.case_cong option.case_cong if_cong)
    next
      case (Cons c cs)
      have "length cs < length s" using Cons by (rule skip_ws_Cons_length)
      then have cs: "2 * length cs + 2 \<le> n" using l by simp
      have pe: "parse_elements m' cs = parse_elements n cs" using IHe [OF cs m(2)] .
      have pm: "parse_members m' cs = parse_members n cs" using IHm [OF cs m(2)] .
      show ?thesis using Cons by (simp add: m(1) pe pm cong: list.case_cong option.case_cong if_cong)
    qed
  qed
  have e: "parse_elements m s = parse_elements (Suc n) s"
    if l: "2 * length s + 2 \<le> Suc n" and le: "Suc n \<le> m" for s m
  proof -
    from le obtain m' where m: "m = Suc m'" "n \<le> m'" by (cases m) auto
    have pv: "parse_value m' s = parse_value n s"
      using l m(2) by (intro IHv) simp_all
    show ?thesis
    proof (cases "parse_value n s")
      case None
      then show ?thesis by (simp add: m(1) pv cong: list.case_cong option.case_cong if_cong)
    next
      case (Some a)
      obtain x q where a: "a = (x, q)" by (cases a)
      have q: "length q < length s"
        using Some a parse_value_shorter by blast
      show ?thesis
      proof (cases "skip_ws q")
        case Nil
        then show ?thesis using Some a by (simp add: m(1) pv cong: list.case_cong option.case_cong if_cong)
      next
        case (Cons c q')
        have "length q' < length q" using Cons by (rule skip_ws_Cons_length)
        then have "2 * length q' + 2 \<le> n" using q l by simp
        then have pe: "parse_elements m' q' = parse_elements n q'" using m(2) by (rule IHe)
        show ?thesis using Some a Cons by (simp add: m(1) pv pe cong: list.case_cong option.case_cong if_cong)
      qed
    qed
  qed
  have mm: "parse_members m s = parse_members (Suc n) s"
    if l: "2 * length s + 2 \<le> Suc n" and le: "Suc n \<le> m" for s m
  proof -
    from le obtain m' where m: "m = Suc m'" "n \<le> m'" by (cases m) auto
    show ?thesis
    proof (cases "skip_ws s")
      case Nil
      then show ?thesis by (simp add: m(1) cong: list.case_cong option.case_cong if_cong)
    next
      case s1: (Cons c cs)
      have lcs: "length cs < length s" using s1 by (rule skip_ws_Cons_length)
      show ?thesis
      proof (cases "parse_chars cs")
        case None
        then show ?thesis using s1 by (simp add: m(1) cong: list.case_cong option.case_cong if_cong)
      next
        case (Some a)
        obtain k q where a: "a = (k, q)" by (cases a)
        have lq: "length q < length cs" using Some a parse_chars_shorter by blast
        show ?thesis
        proof (cases "skip_ws q")
          case Nil
          then show ?thesis using s1 Some a by (simp add: m(1) cong: list.case_cong option.case_cong if_cong)
        next
          case q1: (Cons c' r')
          have lr': "length r' < length q" using q1 by (rule skip_ws_Cons_length)
          have pv: "parse_value m' r' = parse_value n r'"
            using l m(2) lcs lq lr' by (intro IHv) simp_all
          show ?thesis
          proof (cases "parse_value n r'")
            case None
            then show ?thesis using s1 Some a q1 by (simp add: m(1) pv cong: list.case_cong option.case_cong if_cong)
          next
            case x: (Some b)
            obtain x' q2 where b: "b = (x', q2)" by (cases b)
            have lq2: "length q2 < length r'" using x b parse_value_shorter by blast
            show ?thesis
            proof (cases "skip_ws q2")
              case Nil
              then show ?thesis using s1 Some a q1 x b by (simp add: m(1) pv cong: list.case_cong option.case_cong if_cong)
            next
              case q3: (Cons c'' q')
              have "length q' < length q2" using q3 by (rule skip_ws_Cons_length)
              then have "2 * length q' + 2 \<le> n" using l lcs lq lr' lq2 by simp
              then have pm: "parse_members m' q' = parse_members n q'" using m(2) by (rule IHm)
              show ?thesis using s1 Some a q1 x b q3 by (simp add: m(1) pv pm cong: list.case_cong option.case_cong if_cong)
            qed
          qed
        qed
      qed
    qed
  qed
  show ?case using v e mm by blast
qed

lemma parse_value_fuel:
  "2 * length s + 2 \<le> n \<Longrightarrow> parse_value n s = parse_value (2 * length s + 2) s"
  using parse_fuel [of "2 * length s + 2"] by simp

lemma JSON_parse_fuel:
  "2 * length s + 2 \<le> n \<Longrightarrow>
   JSON_parse s =
     (case parse_value n s of
        None \<Rightarrow> Inl SyntaxError
      | Some (v, r) \<Rightarrow> if skip_ws r = [] then Inr v else Inl SyntaxError)"
  by (simp add: JSON_parse_def parse_value_fuel)












lemma hex_val_hex_digit: "d < 16 \<Longrightarrow> hex_val (hex_digit d) = Some d"
  by (auto simp: hex_val_def hex_digit_def Let_def)

lemma hex_val_zero: "hex_val (CHR ''0'') = Some 0"
  by (simp add: hex_val_def)

lemma unicode_escape_control:
  assumes "(of_char c :: nat) < 32"
  shows "unicode_escape (CHR ''0'') (CHR ''0'')
           (hex_digit ((of_char c :: nat) div 16)) (hex_digit ((of_char c :: nat) mod 16)) = Some c"
proof -
  have a: "hex_val (hex_digit ((of_char c :: nat) div 16)) = Some ((of_char c :: nat) div 16)"
    using assms by (intro hex_val_hex_digit) simp
  have b: "hex_val (hex_digit ((of_char c :: nat) mod 16)) = Some ((of_char c :: nat) mod 16)"
    by (intro hex_val_hex_digit) simp
  have "(of_char c :: nat) div 16 * 16 + (of_char c :: nat) mod 16 = of_char c"
    by simp
  then show ?thesis
    using assms by (simp add: unicode_escape_def a b hex_val_zero Let_def)
qed

lemma parse_chars_escape_char:
  "parse_chars (escape_char c @ t) = map_option (\<lambda>(u, q). (c # u, q)) (parse_chars t)"
proof -
  consider (quote) "c = CHR 0x22" | (backslash) "c = CHR 0x5C"
    | (b) "c = CHR 0x08" | (f) "c = CHR 0x0C" | (n) "c = CHR 0x0A" | (r) "c = CHR 0x0D"
    | (t) "c = CHR 0x09"
    | (control) "c \<noteq> CHR 0x22" "c \<noteq> CHR 0x5C" "c \<noteq> CHR 0x08" "c \<noteq> CHR 0x0C" "c \<noteq> CHR 0x0A"
        "c \<noteq> CHR 0x0D" "c \<noteq> CHR 0x09" "(of_char c :: nat) < 32"
    | (plain) "c \<noteq> CHR 0x22" "c \<noteq> CHR 0x5C" "\<not> (of_char c :: nat) < 32"
    by blast
  then show ?thesis
  proof cases
    case control
    then show ?thesis
      using unicode_escape_control [of c] by (simp add: escape_char_def)
  next
    case plain
    then have "escape_char c = [c]"
      by (auto simp: escape_char_def)
    with plain show ?thesis by simp
  qed (simp_all add: escape_char_def simple_escape_def)
qed

lemma parse_chars_escaped:
  "parse_chars (concat (map escape_char s) @ CHR 0x22 # r) = Some (s, r)"
  by (induction s) (simp_all add: parse_chars_escape_char)

lemma parse_chars_quote: "parse_chars (tl (quote s) @ r) = Some (s, r)"
  by (simp add: quote_def parse_chars_escaped)







































section \<open>Properties of the renderer\<close>
















lemma substitute_missing:
  "map_of repo key = None \<Longrightarrow> key \<noteq> ''__proto__'' \<Longrightarrow> key \<noteq> ''constructor'' \<Longrightarrow>
   key \<notin> set object_prototype_functions \<Longrightarrow> substitute h repo key = []"
  by (simp add: substitute_def get_member_def)








end
